theory Spec2Isabelle
  imports Complex_Main
begin

section \<open>Data model of the link portal server\<close>

text \<open>
  The server keeps one JSON document (\<^verbatim>\<open>data.json\<close>) holding the folders with their
  links and, per visitor id, the time of the last claim. Timestamps are what
  \<^verbatim>\<open>Date.now()\<close> returns: milliseconds since the epoch, natural numbers here; differences
  of timestamps are taken in \<open>int\<close>, as JavaScript subtraction may go below zero.
  A property that JavaScript may find absent (\<^verbatim>\<open>f.links || []\<close>) is an \<open>option\<close>.
  A \<open>string\<close> is the UTF-8 encoding of a well-formed JavaScript string, so a code point
  beyond ASCII is two or three bytes.
\<close>

record link =
  link_id :: string
  link_name :: string
  link_url :: string

record folder =
  folder_id :: string
  folder_title :: string
  folder_links :: "link list option"

record claim_record =
  lastClaimAt :: nat

text \<open>
  The value that \<^verbatim>\<open>loadData\<close> returns is the parsed JSON value itself. \<open>shape\<close> tells what
  that value is: a plain object; a top-level array, on which the assignments of
  \<^verbatim>\<open>loadData\<close> set \<^verbatim>\<open>folders\<close> and \<^verbatim>\<open>claims\<close> as named properties that
  \<^verbatim>\<open>JSON.stringify\<close> leaves out; or a primitive (a number, a string, a boolean), on which
  the assignments of the non-strict module are dropped, so that \<^verbatim>\<open>data.folders\<close> and
  \<^verbatim>\<open>data.claims\<close> are undefined. For a primitive, \<open>folders\<close> is what the handlers read
  through \<^verbatim>\<open>data.folders || []\<close>, the empty list, and \<open>claims\<close> is not there to be read.
  \<open>claims\<close> holds the own properties of the claims object.
\<close>

datatype json_shape = AnObject | AnArray | APrimitive

record store =
  folders :: "folder list"
  claims :: "string \<Rightarrow> claim_record option"
  shape :: json_shape

text \<open>
  What \<^verbatim>\<open>JSON.parse\<close> makes of the text of the data file: a syntax error; the value
  \<^verbatim>\<open>null\<close> (on which the property access of \<^verbatim>\<open>loadData\<close> throws); a number, string
  or boolean; an array; or an object, whose \<^verbatim>\<open>folders\<close> is an array or not, and whose
  \<^verbatim>\<open>claims\<close> is a plain object or is absent, \<^verbatim>\<open>null\<close> or a primitive. Which primitive
  and which elements of a top-level array the file holds makes no difference to the
  server, so there is one value for each. A file whose \<^verbatim>\<open>claims\<close> is an array is not
  described by this type.
\<close>

datatype snapshot =
  Unparsable
| JsonNull
| JsonPrimitive
| JsonArray
| Document "folder list option" "(string \<Rightarrow> claim_record option) option"

text \<open>The file system as the server sees it: the data file (absent or with a
  content), and whether writing to the directory succeeds.\<close>

record disk =
  data_file :: "snapshot option"
  writable :: bool

datatype io_error = ENOENT | SyntaxError | TypeError | EIO

section \<open>Plain objects used as tables\<close>

text \<open>
  \<^verbatim>\<open>data.claims\<close> and \<^verbatim>\<open>pinAttempts\<close> are plain objects indexed by a string that
  the client chooses. A key that is not an own property is looked up in
  \<^verbatim>\<open>Object.prototype\<close>, whose members are named here. An assignment to the key
  \<^verbatim>\<open>__proto__\<close>, when it is not an own property, runs the setter of the prototype and
  adds no own property, so \<^verbatim>\<open>JSON.stringify\<close> writes nothing for it.
\<close>

definition proto_member :: "string \<Rightarrow> bool" where
  "proto_member k =
     (k \<in> set [''constructor'', ''__proto__'', ''hasOwnProperty'', ''isPrototypeOf'',
               ''propertyIsEnumerable'', ''toLocaleString'', ''toString'', ''valueOf'',
               ''__defineGetter__'', ''__defineSetter__'', ''__lookupGetter__'',
               ''__lookupSetter__''])"

definition obj_put :: "(string \<Rightarrow> 'a option) \<Rightarrow> string \<Rightarrow> 'a \<Rightarrow> (string \<Rightarrow> 'a option)" where
  "obj_put m k v = (if k = ''__proto__'' \<and> m k = None then m else m(k \<mapsto> v))"

section \<open>Persistence: \<^verbatim>\<open>loadData\<close> and \<^verbatim>\<open>saveData\<close>\<close>

definition readFile :: "disk \<Rightarrow> io_error + snapshot" where
  "readFile d = (case data_file d of None \<Rightarrow> Inl ENOENT | Some t \<Rightarrow> Inr t)"

definition JSON_stringify :: "store \<Rightarrow> snapshot" where
  "JSON_stringify s =
     (case shape s of
        AnObject \<Rightarrow> Document (Some (folders s)) (Some (claims s))
      | AnArray \<Rightarrow> JsonArray
      | APrimitive \<Rightarrow> JsonPrimitive)"

text \<open>The body of the \<^verbatim>\<open>try\<close> block of \<^verbatim>\<open>loadData\<close>: read, parse, ensure the shape.\<close>

definition load_try :: "disk \<Rightarrow> io_error + store" where
  "load_try d =
     (case readFile d of
        Inl e \<Rightarrow> Inl e
      | Inr raw \<Rightarrow>
          (case raw of
             Unparsable \<Rightarrow> Inl SyntaxError
           | JsonNull \<Rightarrow> Inl TypeError
           | JsonPrimitive \<Rightarrow> Inr \<lparr>folders = [], claims = (\<lambda>k. None), shape = APrimitive\<rparr>
           | JsonArray \<Rightarrow> Inr \<lparr>folders = [], claims = (\<lambda>k. None), shape = AnArray\<rparr>
           | Document fs cs \<Rightarrow>
               Inr \<lparr>folders = (case fs of Some a \<Rightarrow> a | None \<Rightarrow> []),
                    claims = (case cs of Some c \<Rightarrow> c | None \<Rightarrow> (\<lambda>k. None)),
                    shape = AnObject\<rparr>))"

text \<open>The queued write: the snapshot goes to a side file that is renamed onto the data
  file, so the data file holds the new snapshot or, when the write fails, the old one.\<close>

definition write_snapshot :: "disk \<Rightarrow> store \<Rightarrow> io_error + disk" where
  "write_snapshot d s =
     (if writable d then Inr (d\<lparr>data_file := Some (JSON_stringify s)\<rparr>) else Inl EIO)"

text \<open>\<^verbatim>\<open>saveData\<close> catches the error of the write and logs it.\<close>

definition saveData :: "disk \<Rightarrow> store \<Rightarrow> io_error + disk" where
  "saveData d s = (case write_snapshot d s of Inr d' \<Rightarrow> Inr d' | Inl err \<Rightarrow> Inr d)"

definition init_store :: store where
  "init_store = \<lparr>folders = [], claims = (\<lambda>k. None), shape = AnObject\<rparr>"

definition loadData :: "disk \<Rightarrow> io_error + (store \<times> disk)" where
  "loadData d =
     (case load_try d of
        Inr parsed \<Rightarrow> Inr (parsed, d)
      | Inl e \<Rightarrow>
          (case saveData d init_store of
             Inl e' \<Rightarrow> Inl e'
           | Inr d' \<Rightarrow> Inr (init_store, d')))"

section \<open>Looking up a link\<close>

definition links_or_empty :: "folder \<Rightarrow> link list" where
  "links_or_empty f = (case folder_links f of Some ls \<Rightarrow> ls | None \<Rightarrow> [])"

fun find_link :: "link list \<Rightarrow> string \<Rightarrow> link option" where
  "find_link [] linkId = None"
| "find_link (l # ls) linkId = (if link_id l = linkId then Some l else find_link ls linkId)"

fun find_in_folders :: "folder list \<Rightarrow> string \<Rightarrow> (folder \<times> link) option" where
  "find_in_folders [] linkId = None"
| "find_in_folders (f # fs) linkId =
     (case find_link (links_or_empty f) linkId of
        Some l \<Rightarrow> Some (f, l)
      | None \<Rightarrow> find_in_folders fs linkId)"

definition findLinkById :: "store \<Rightarrow> string \<Rightarrow> (folder \<times> link) option" where
  "findLinkById data linkId = find_in_folders (folders data) linkId"

section \<open>Replies\<close>

record link_view =
  lv_id :: string
  lv_name :: string
  lv_url :: string

record folder_view =
  fv_id :: string
  fv_title :: string
  fv_links :: "link_view list"

datatype body =
  Links "folder_view list"
| OkUrl string
| OkId string
| Ok
| Fail
| FailMsg string
| FailRetry int

text \<open>A handler answers with a status and a JSON body, or, when an awaited call
  rejects or a statement throws, not at all.\<close>

datatype reply = Reply nat body | NoReply io_error

text \<open>JavaScript truthiness of a string-valued property that may be absent.\<close>

definition truthy :: "string option \<Rightarrow> bool" where
  "truthy v = (case v of None \<Rightarrow> False | Some s \<Rightarrow> s \<noteq> [])"

section \<open>Claiming a link\<close>

definition CLAIM_COOLDOWN_MS :: int where
  "CLAIM_COOLDOWN_MS = 7 * 24 * 3600 * 1000"

text \<open>\<^verbatim>\<open>Math.ceil(x / 1000)\<close> on an integer \<open>x\<close>.\<close>

definition ceil_div1000 :: "int \<Rightarrow> int" where
  "ceil_div1000 x = - ((- x) div 1000)"

record claim_req =
  body_id :: "string option"
  divine_uid :: string

text \<open>
  \<^verbatim>\<open>(data.claims[userId] || {}).lastClaimAt || 0\<close>. Where the key is no own property the
  lookup gives nothing or a member of \<^verbatim>\<open>Object.prototype\<close>, which has no
  \<^verbatim>\<open>lastClaimAt\<close>; both give 0.
\<close>

definition last_claim :: "store \<Rightarrow> string \<Rightarrow> nat" where
  "last_claim data userId = (case claims data userId of None \<Rightarrow> 0 | Some r \<Rightarrow> lastClaimAt r)"

definition claim :: "disk \<Rightarrow> claim_req \<Rightarrow> nat \<Rightarrow> reply \<times> disk" where
  "claim d req now =
     (case body_id req of
        None \<Rightarrow> (Reply 400 (FailMsg ''Missing id''), d)
      | Some i \<Rightarrow>
          if i = [] then (Reply 400 (FailMsg ''Missing id''), d)
          else
            (case loadData d of
               Inl e \<Rightarrow> (NoReply e, d)
             | Inr (data, d1) \<Rightarrow>
                 (case findLinkById data i of
                    None \<Rightarrow> (Reply 404 (FailMsg ''Not found''), d1)
                  | Some (f, l) \<Rightarrow>
                      if shape data = APrimitive then (NoReply TypeError, d1)
                      else
                        let userId = divine_uid req;
                            last = last_claim data userId
                        in if last \<noteq> 0 \<and> int now - int last < CLAIM_COOLDOWN_MS
                           then (Reply 429
                                   (FailRetry (ceil_div1000 (CLAIM_COOLDOWN_MS - (int now - int last)))),
                                 d1)
                           else
                             (case saveData d1
                                     (data\<lparr>claims :=
                                        obj_put (claims data) userId \<lparr>lastClaimAt = now\<rparr>\<rparr>) of
                                Inl e \<Rightarrow> (NoReply e, d1)
                              | Inr d2 \<Rightarrow> (Reply 200 (OkUrl (link_url l)), d2)))))"

section \<open>Listing the folders\<close>

definition view_link :: "link \<Rightarrow> link_view" where
  "view_link l = \<lparr>lv_id = link_id l, lv_name = link_name l, lv_url = link_url l\<rparr>"

definition view_folder :: "folder \<Rightarrow> folder_view" where
  "view_folder f =
     \<lparr>fv_id = folder_id f, fv_title = folder_title f,
      fv_links = map view_link (links_or_empty f)\<rparr>"

definition get_links :: "disk \<Rightarrow> reply \<times> disk" where
  "get_links d =
     (case loadData d of
        Inl e \<Rightarrow> (NoReply e, d)
      | Inr (data, d1) \<Rightarrow> (Reply 200 (Links (map view_folder (folders data))), d1))"

section \<open>The URL gate\<close>

text \<open>
  \<^verbatim>\<open>new URL(raw)\<close> is the platform's URL parser, not code of the server: it is a
  parameter here, \<open>None\<close> where the constructor throws, and otherwise the two
  properties of the parsed URL that the server reads.
\<close>

record url =
  protocol :: string
  href :: string

definition ensureUrlSafe :: "(string \<Rightarrow> url option) \<Rightarrow> string \<Rightarrow> string option" where
  "ensureUrlSafe parse raw =
     (case parse raw of
        None \<Rightarrow> None
      | Some u \<Rightarrow>
          if protocol u \<noteq> ''http:'' \<and> protocol u \<noteq> ''https:'' then None
          else Some (href u))"

section \<open>Adding a link\<close>

text \<open>
  \<^verbatim>\<open>String.prototype.trim\<close> removes, at both ends, the white space and line
  terminators of the language: U+0009 to U+000D, U+0020, U+00A0, U+1680, U+2000 to
  U+200A, U+2028, U+2029, U+202F, U+205F, U+3000 and U+FEFF, here in UTF-8.
\<close>

definition white_space :: "string list" where
  "white_space =
     [[CHR 0x09], [CHR 0x0A], [CHR 0x0B], [CHR 0x0C], [CHR 0x0D], [CHR 0x20],
      [CHR 0xC2, CHR 0xA0],
      [CHR 0xE1, CHR 0x9A, CHR 0x80],
      [CHR 0xE2, CHR 0x80, CHR 0x80], [CHR 0xE2, CHR 0x80, CHR 0x81],
      [CHR 0xE2, CHR 0x80, CHR 0x82], [CHR 0xE2, CHR 0x80, CHR 0x83],
      [CHR 0xE2, CHR 0x80, CHR 0x84], [CHR 0xE2, CHR 0x80, CHR 0x85],
      [CHR 0xE2, CHR 0x80, CHR 0x86], [CHR 0xE2, CHR 0x80, CHR 0x87],
      [CHR 0xE2, CHR 0x80, CHR 0x88], [CHR 0xE2, CHR 0x80, CHR 0x89],
      [CHR 0xE2, CHR 0x80, CHR 0x8A],
      [CHR 0xE2, CHR 0x80, CHR 0xA8], [CHR 0xE2, CHR 0x80, CHR 0xA9],
      [CHR 0xE2, CHR 0x80, CHR 0xAF],
      [CHR 0xE2, CHR 0x81, CHR 0x9F],
      [CHR 0xE3, CHR 0x80, CHR 0x80],
      [CHR 0xEF, CHR 0xBB, CHR 0xBF]]"

text \<open>The number of bytes of the white space code point that \<open>s\<close> starts with, if any,
  among the encodings \<open>ws\<close>.\<close>

definition space_at_start :: "string list \<Rightarrow> string \<Rightarrow> nat" where
  "space_at_start ws s =
     (case List.find (\<lambda>w. w \<noteq> [] \<and> take (length w) s = w) ws of
        None \<Rightarrow> 0
      | Some w \<Rightarrow> length w)"

function strip_start :: "string list \<Rightarrow> string \<Rightarrow> string" where
  "strip_start ws s =
     (if space_at_start ws s = 0 then s else strip_start ws (drop (space_at_start ws s) s))"
  by pat_completeness auto
termination
proof (relation "measure (\<lambda>(ws, s). length s)")
  show "wf (measure (\<lambda>(ws, s). length s))" by simp
next
  fix ws :: "string list" and s :: string
  assume a: "space_at_start ws s \<noteq> 0"
  then obtain w where "List.find (\<lambda>w. w \<noteq> [] \<and> take (length w) s = w) ws = Some w"
    by (auto simp: space_at_start_def split: option.splits)
  then have "w \<noteq> []" and "take (length w) s = w" by (auto simp: find_Some_iff)
  then have "s \<noteq> []" by auto
  with a show "((ws, drop (space_at_start ws s) s), (ws, s)) \<in> measure (\<lambda>(ws, s). length s)"
    by simp
qed

definition trim :: "string \<Rightarrow> string" where
  "trim s = rev (strip_start (map rev white_space) (rev (strip_start white_space s)))"




definition str_of :: "string option \<Rightarrow> string" where
  "str_of v = (case v of None \<Rightarrow> [] | Some s \<Rightarrow> s)"


section \<open>The PIN gate\<close>

definition PIN_MAX_ATTEMPTS :: nat where
  "PIN_MAX_ATTEMPTS = 6"

definition PIN_LOCK_MS :: nat where
  "PIN_LOCK_MS = 60 * 1000"

record pin_state =
  count :: nat
  lockUntil :: nat

text \<open>
  What \<^verbatim>\<open>pinAttempts[ip]\<close> can be: an entry that the server made, or a member of
  \<^verbatim>\<open>Object.prototype\<close> (a built-in function, or the prototype itself for
  \<^verbatim>\<open>__proto__\<close>). A built-in has no \<^verbatim>\<open>lockUntil\<close>, and its \<^verbatim>\<open>count\<close> is undefined
  and after \<^verbatim>\<open>count++\<close> not a number, which compares false with every threshold.
  The table holds the own properties of \<^verbatim>\<open>pinAttempts\<close>.
\<close>

datatype pin_slot = Entry pin_state | Builtin

type_synonym pin_attempts = "string \<Rightarrow> pin_slot option"

record pin_req =
  req_ip :: "string option"
  x_forwarded_for :: "string option"
  body_pin :: "string option"

definition ipKey :: "pin_req \<Rightarrow> string" where
  "ipKey req =
     (if truthy (req_ip req) then str_of (req_ip req)
      else if truthy (x_forwarded_for req) then str_of (x_forwarded_for req)
      else ''unknown'')"

text \<open>\<^verbatim>\<open>pinAttempts[ip]\<close>: the own property, else the inherited one, else undefined.\<close>

definition pin_get :: "pin_attempts \<Rightarrow> string \<Rightarrow> pin_slot option" where
  "pin_get pa ip =
     (case pa ip of
        Some v \<Rightarrow> Some v
      | None \<Rightarrow> if proto_member ip then Some Builtin else None)"

text \<open>\<^verbatim>\<open>pinAttempts[ip] || { count: 0, lockUntil: 0 }\<close>\<close>

definition pin_entry :: "pin_attempts \<Rightarrow> string \<Rightarrow> pin_slot" where
  "pin_entry pa ip =
     (case pin_get pa ip of None \<Rightarrow> Entry \<lparr>count = 0, lockUntil = 0\<rparr> | Some v \<Rightarrow> v)"

definition isIpLocked :: "pin_attempts \<Rightarrow> string \<Rightarrow> nat \<Rightarrow> bool" where
  "isIpLocked pa ip now =
     (case pin_get pa ip of
        None \<Rightarrow> False
      | Some Builtin \<Rightarrow> False
      | Some (Entry s) \<Rightarrow> if lockUntil s \<noteq> 0 \<and> lockUntil s > now then True else False)"

definition registerPinFailure :: "pin_attempts \<Rightarrow> string \<Rightarrow> nat \<Rightarrow> pin_attempts" where
  "registerPinFailure pa ip now =
     (case pin_entry pa ip of
        Builtin \<Rightarrow> obj_put pa ip Builtin
      | Entry s \<Rightarrow>
          let s1 = s\<lparr>count := count s + 1\<rparr>;
              s2 = (if count s1 \<ge> PIN_MAX_ATTEMPTS
                    then s1\<lparr>lockUntil := now + PIN_LOCK_MS, count := 0\<rparr>
                    else s1)
          in obj_put pa ip (Entry s2))"

text \<open>
  The handler of \<^verbatim>\<open>verify-pin\<close>. \<open>ADMIN_PIN\<close> is the configured secret (empty when the
  environment has none), \<open>isAdmin\<close> the flag of the caller's session, \<open>t\<close> the clock
  read by \<^verbatim>\<open>isIpLocked\<close> and \<open>t'\<close> the clock read by \<^verbatim>\<open>registerPinFailure\<close>.
\<close>

definition verify_pin ::
  "string \<Rightarrow> pin_attempts \<Rightarrow> bool \<Rightarrow> pin_req \<Rightarrow> nat \<Rightarrow> nat \<Rightarrow> reply \<times> pin_attempts \<times> bool" where
  "verify_pin ADMIN_PIN pa isAdmin req t t' =
     (let ip = ipKey req
      in if isIpLocked pa ip t
         then (Reply 429 (FailMsg ''Too many attempts.  Try again later.''), pa, isAdmin)
         else if \<not> truthy (body_pin req) \<or> ADMIN_PIN = []
         then (Reply 401 Fail, registerPinFailure pa ip t', isAdmin)
         else if str_of (body_pin req) = ADMIN_PIN
         then (Reply 200 Ok, pa(ip := None), True)
         else (Reply 401 Fail, registerPinFailure pa ip t', isAdmin))"

text \<open>A run of attempts made with one session, each with its two clock readings.\<close>

fun verify_pins ::
  "string \<Rightarrow> pin_attempts \<Rightarrow> bool \<Rightarrow> (pin_req \<times> nat \<times> nat) list \<Rightarrow> pin_attempts \<times> bool" where
  "verify_pins ADMIN_PIN pa isAdmin [] = (pa, isAdmin)"
| "verify_pins ADMIN_PIN pa isAdmin ((req, t, t') # rs) =
     (case verify_pin ADMIN_PIN pa isAdmin req t t' of
        (r, pa', isAdmin') \<Rightarrow> verify_pins ADMIN_PIN pa' isAdmin' rs)"

section \<open>The store as the handlers see it\<close>

text \<open>Every handler starts from what \<open>loadData\<close> returns; this is the store that a
  state of the disk stands for.\<close>

definition current_store :: "disk \<Rightarrow> store" where
  "current_store d = (case loadData d of Inr (s, d') \<Rightarrow> s | Inl e \<Rightarrow> init_store)"

section \<open>Stores and requests used in the examples\<close>

definition example_folders :: "folder list" where
  "example_folders =
     [\<lparr>folder_id = ''F1'', folder_title = ''Tools'',
       folder_links = Some [\<lparr>link_id = ''L1'', link_name = ''Site'', link_url = ''https://a.example/''\<rparr>]\<rparr>]"

definition example_claims :: "nat \<Rightarrow> string \<Rightarrow> claim_record option" where
  "example_claims t0 = [''V1'' \<mapsto> \<lparr>lastClaimAt = t0\<rparr>]"

definition example_disk :: "nat \<Rightarrow> disk" where
  "example_disk t0 =
     \<lparr>data_file = Some (Document (Some example_folders) (Some (example_claims t0))),
      writable = True\<rparr>"

definition example_claim_req :: claim_req where
  "example_claim_req = \<lparr>body_id = Some ''L1'', divine_uid = ''V1''\<rparr>"

text \<open>A catalog of two folders and three links in which nobody has claimed yet.\<close>

definition example_catalog :: "folder list" where
  "example_catalog =
     [\<lparr>folder_id = ''F1'', folder_title = ''Tools'',
       folder_links = Some [\<lparr>link_id = ''L1'', link_name = ''Site'', link_url = ''https://a.example/''\<rparr>]\<rparr>,
      \<lparr>folder_id = ''F2'', folder_title = ''Docs'',
       folder_links = Some [\<lparr>link_id = ''L2'', link_name = ''Guide'', link_url = ''https://b.example/''\<rparr>,
                            \<lparr>link_id = ''L3'', link_name = ''Notes'', link_url = ''https://c.example/''\<rparr>]\<rparr>]"

definition no_claims :: "string \<Rightarrow> claim_record option" where
  "no_claims = (\<lambda>k. None)"

definition catalog_disk :: disk where
  "catalog_disk =
     \<lparr>data_file = Some (Document (Some example_catalog) (Some no_claims)), writable = True\<rparr>"

definition proto_claim_req :: claim_req where
  "proto_claim_req = \<lparr>body_id = Some ''L2'', divine_uid = ''__proto__''\<rparr>"

definition primitive_disk :: disk where
  "primitive_disk = \<lparr>data_file = Some JsonPrimitive, writable = True\<rparr>"



text \<open>Requests that reach the server without an address of their own, so that the key
  is the \<^verbatim>\<open>X-Forwarded-For\<close> header that the client sent.\<close>

definition forwarded_pin_req :: "string \<Rightarrow> string \<Rightarrow> pin_req" where
  "forwarded_pin_req k p = \<lparr>req_ip = None, x_forwarded_for = Some k, body_pin = Some p\<rparr>"

definition forwarded_attempts :: "(pin_req \<times> nat \<times> nat) list" where
  "forwarded_attempts =
     [(forwarded_pin_req ''constructor'' ''0000'', 1000, 1001),
      (forwarded_pin_req ''constructor'' ''0001'', 2000, 2001),
      (forwarded_pin_req ''constructor'' ''0002'', 3000, 3001),
      (forwarded_pin_req ''constructor'' ''0003'', 4000, 4001),
      (forwarded_pin_req ''constructor'' ''0004'', 5000, 5001),
      (forwarded_pin_req ''constructor'' ''0005'', 6000, 6001)]"

definition no_attempts :: pin_attempts where
  "no_attempts = (\<lambda>ip. None)"

text \<open>What the platform's parser returns on the two URLs used in the examples
  (the scheme with its colon, and the serialised URL); any other string is taken as
  one it rejects.\<close>

definition example_parse :: "string \<Rightarrow> url option" where
  "example_parse raw =
     (if raw = ''javascript:alert(1)''
      then Some \<lparr>protocol = ''javascript:'', href = ''javascript:alert(1)''\<rparr>
      else if raw = ''https://example.com/a?x=1''
      then Some \<lparr>protocol = ''https:'', href = ''https://example.com/a?x=1''\<rparr>
      else None)"



section \<open>Facts about persistence\<close>

lemma saveData_eq:
  "saveData d s = Inr (if writable d then d\<lparr>data_file := Some (JSON_stringify s)\<rparr> else d)"
  by (simp add: saveData_def write_snapshot_def)

lemma load_try_cases:
  "load_try d =
     (case data_file d of
        None \<Rightarrow> Inl ENOENT
      | Some Unparsable \<Rightarrow> Inl SyntaxError
      | Some JsonNull \<Rightarrow> Inl TypeError
      | Some JsonPrimitive \<Rightarrow> Inr \<lparr>folders = [], claims = (\<lambda>k. None), shape = APrimitive\<rparr>
      | Some JsonArray \<Rightarrow> Inr \<lparr>folders = [], claims = (\<lambda>k. None), shape = AnArray\<rparr>
      | Some (Document fs cs) \<Rightarrow>
          Inr \<lparr>folders = (case fs of Some a \<Rightarrow> a | None \<Rightarrow> []),
               claims = (case cs of Some c \<Rightarrow> c | None \<Rightarrow> (\<lambda>k. None)),
               shape = AnObject\<rparr>)"
  by (simp add: load_try_def readFile_def split: option.splits snapshot.splits)

lemma load_try_saved:
  "shape s = AnObject \<Longrightarrow> load_try (d\<lparr>data_file := Some (JSON_stringify s)\<rparr>) = Inr s"
  by (simp add: load_try_cases JSON_stringify_def)

lemma loadData_saved:
  "shape s = AnObject \<Longrightarrow>
   loadData (d\<lparr>data_file := Some (JSON_stringify s)\<rparr>) =
     Inr (s, d\<lparr>data_file := Some (JSON_stringify s)\<rparr>)"
  by (simp add: loadData_def load_try_saved)

lemma loadData_total: "\<exists>s d'. loadData d = Inr (s, d')"
  by (simp add: loadData_def saveData_eq split: sum.splits)

lemma loadData_document:
  "data_file d = Some (Document fs cs) \<Longrightarrow> loadData d = Inr (s, d') \<Longrightarrow> d' = d"
  by (auto simp: loadData_def load_try_cases)

lemma loadData_writable: "loadData d = Inr (s, d') \<Longrightarrow> writable d' = writable d"
  by (auto simp: loadData_def saveData_eq split: sum.splits if_splits)

text \<open>Only an object on the disk gives folders to the handlers.\<close>

lemma loadData_shape:
  "loadData d = Inr (s, d') \<Longrightarrow> folders s \<noteq> [] \<Longrightarrow> shape s = AnObject"
  by (auto simp: loadData_def load_try_cases saveData_eq init_store_def
      split: option.splits snapshot.splits if_splits)

text \<open>Loading twice gives what loading once gave: the recovery of \<open>loadData\<close> leaves
  a disk from which the same store is read.\<close>

lemma loadData_again: "loadData d = Inr (s, d') \<Longrightarrow> loadData d' = Inr (s, d')"
proof (cases "load_try d")
  case (Inr parsed)
  assume "loadData d = Inr (s, d')"
  with Inr show ?thesis by (simp add: loadData_def)
next
  case (Inl e)
  assume l: "loadData d = Inr (s, d')"
  have i: "shape init_store = AnObject" by (simp add: init_store_def)
  show ?thesis
  proof (cases "writable d")
    case True
    with Inl l have "s = init_store" "d' = d\<lparr>data_file := Some (JSON_stringify init_store)\<rparr>"
      by (auto simp: loadData_def saveData_eq)
    then show ?thesis by (simp add: loadData_saved [OF i])
  next
    case False
    with Inl l have "s = init_store" "d' = d"
      by (auto simp: loadData_def saveData_eq)
    with l show ?thesis by simp
  qed
qed

lemma current_store_loaded: "loadData d = Inr (s, d') \<Longrightarrow> current_store d = s \<and> current_store d' = s"
  by (simp add: current_store_def loadData_again)

text \<open>What \<open>loadData\<close> does on the files that hold a store or that it takes as broken.\<close>

lemma loadData_cases:
  "(data_file d = None \<or> data_file d = Some Unparsable \<or> data_file d = Some JsonNull \<longrightarrow>
      loadData d =
        Inr (init_store,
             if writable d then d\<lparr>data_file := Some (JSON_stringify init_store)\<rparr> else d)) \<and>
   (\<forall>fs cs. data_file d = Some (Document fs cs) \<longrightarrow>
      loadData d =
        Inr (\<lparr>folders = (case fs of Some a \<Rightarrow> a | None \<Rightarrow> []),
              claims = (case cs of Some c \<Rightarrow> c | None \<Rightarrow> (\<lambda>k. None)),
              shape = AnObject\<rparr>, d))"
  by (auto simp: loadData_def load_try_cases saveData_eq)

section \<open>Facts about the rounding of the retry time\<close>

lemma ceil_div1000_ceiling: "ceil_div1000 x = \<lceil>real_of_int x / 1000\<rceil>"
  unfolding ceil_div1000_def using ceiling_divide_eq_div[where 'a = real, of x 1000] by simp

lemma ceil_div1000_mono: "x \<le> y \<Longrightarrow> ceil_div1000 x \<le> ceil_div1000 y"
  unfolding ceil_div1000_def by (simp add: zdiv_mono1)

lemma ceil_div1000_shift: "ceil_div1000 (x + 1000) = ceil_div1000 x + 1"
  unfolding ceil_div1000_def by simp

lemma ceil_div1000_pos: "1 \<le> x \<Longrightarrow> 1 \<le> ceil_div1000 x"
  unfolding ceil_div1000_def by simp

section \<open>Facts about the lookup of a link\<close>

lemma find_link_sound: "find_link ls i = Some l \<Longrightarrow> l \<in> set ls \<and> link_id l = i"
  by (induction ls) (auto split: if_splits)

lemma find_link_None: "find_link ls i = None \<longleftrightarrow> (\<forall>l \<in> set ls. link_id l \<noteq> i)"
  by (induction ls) auto

lemma find_in_folders_sound:
  "find_in_folders fs i = Some (f, l) \<Longrightarrow>
   f \<in> set fs \<and> l \<in> set (links_or_empty f) \<and> link_id l = i"
  by (induction fs) (auto split: option.splits dest: find_link_sound)

lemma findLinkById_sound:
  "findLinkById data i = Some (f, l) \<Longrightarrow>
   f \<in> set (folders data) \<and> l \<in> set (links_or_empty f) \<and> link_id l = i"
  unfolding findLinkById_def by (rule find_in_folders_sound)

lemma find_in_folders_None:
  "find_in_folders fs i = None \<longleftrightarrow>
   (\<forall>f \<in> set fs. \<forall>l \<in> set (links_or_empty f). link_id l \<noteq> i)"
  by (induction fs) (auto simp: find_link_None split: option.splits dest: find_link_sound)

lemma findLinkById_None:
  "findLinkById data i = None \<longleftrightarrow>
   (\<forall>f \<in> set (folders data). \<forall>l \<in> set (links_or_empty f). link_id l \<noteq> i)"
  unfolding findLinkById_def by (rule find_in_folders_None)

section \<open>Facts about the examples and the claim handler\<close>

lemma loadData_example:
  "loadData (example_disk t0) =
     Inr (\<lparr>folders = example_folders, claims = example_claims t0, shape = AnObject\<rparr>,
          example_disk t0)"
  by (simp add: loadData_def load_try_cases example_disk_def)

lemma find_example:
  "findLinkById \<lparr>folders = example_folders, claims = c, shape = k\<rparr> ''L1'' =
     Some (\<lparr>folder_id = ''F1'', folder_title = ''Tools'',
             folder_links = Some [\<lparr>link_id = ''L1'', link_name = ''Site'', link_url = ''https://a.example/''\<rparr>]\<rparr>,
           \<lparr>link_id = ''L1'', link_name = ''Site'', link_url = ''https://a.example/''\<rparr>)"
  by (simp add: findLinkById_def example_folders_def links_or_empty_def)

lemma obj_put_plain: "k \<noteq> ''__proto__'' \<or> m k \<noteq> None \<Longrightarrow> obj_put m k v = m(k \<mapsto> v)"
  by (auto simp: obj_put_def)

lemma claim_found:
  assumes "loadData d = Inr (data, d1)" "body_id req = Some i" "i \<noteq> []"
    and "findLinkById data i = Some (f, l)"
  shows "claim d req now =
     (if last_claim data (divine_uid req) \<noteq> 0
         \<and> int now - int (last_claim data (divine_uid req)) < CLAIM_COOLDOWN_MS
      then (Reply 429 (FailRetry (ceil_div1000
              (CLAIM_COOLDOWN_MS - (int now - int (last_claim data (divine_uid req)))))), d1)
      else (Reply 200 (OkUrl (link_url l)),
            if writable d1
            then d1\<lparr>data_file := Some (JSON_stringify
                   (data\<lparr>claims := obj_put (claims data) (divine_uid req) \<lparr>lastClaimAt = now\<rparr>\<rparr>))\<rparr>
            else d1))"
proof -
  from assms(4) have "folders data \<noteq> []" by (auto simp: findLinkById_def)
  with assms(1) have "shape data = AnObject" by (rule loadData_shape)
  with assms show ?thesis by (simp add: claim_def saveData_eq Let_def)
qed

lemma claim_denied_cases:
  assumes "claim d req now = (Reply 429 (FailRetry r), d')"
  shows "\<exists>data. loadData d = Inr (data, d')
      \<and> last_claim data (divine_uid req) \<noteq> 0
      \<and> int now - int (last_claim data (divine_uid req)) < CLAIM_COOLDOWN_MS
      \<and> r = ceil_div1000 (CLAIM_COOLDOWN_MS - (int now - int (last_claim data (divine_uid req))))"
  using assms
  by (auto simp: claim_def saveData_eq Let_def split: option.splits if_splits sum.splits prod.splits)

text \<open>What a granted claim does for a visitor whose record the assignment does store:
  every visitor id but \<^verbatim>\<open>__proto__\<close>, and that one too when the file already has it
  as a key. The url is that of a link of the store with the requested id.\<close>

lemma claim_granted_stored:
  assumes "loadData d = Inr (data, d1)"
    and "body_id req = Some i" and "i \<noteq> []"
    and "findLinkById data i = Some (f, l)"
    and "claims data (divine_uid req) = None
         \<or> (\<exists>r. claims data (divine_uid req) = Some r
                \<and> CLAIM_COOLDOWN_MS \<le> int now - int (lastClaimAt r))"
    and "divine_uid req \<noteq> ''__proto__'' \<or> claims data (divine_uid req) \<noteq> None"
  shows "fst (claim d req now) = Reply 200 (OkUrl (link_url l))
    \<and> f \<in> set (folders data) \<and> l \<in> set (links_or_empty f) \<and> link_id l = i
    \<and> (writable d \<longrightarrow>
         current_store (snd (claim d req now)) =
           data\<lparr>claims := (claims data)(divine_uid req \<mapsto> \<lparr>lastClaimAt = now\<rparr>)\<rparr>)
    \<and> folders (current_store (snd (claim d req now))) = folders data
    \<and> (\<forall>v. v \<noteq> divine_uid req \<longrightarrow>
          claims (current_store (snd (claim d req now))) v = claims data v)"
proof -
  let ?u = "divine_uid req"
  let ?new = "data\<lparr>claims := (claims data)(?u \<mapsto> \<lparr>lastClaimAt = now\<rparr>)\<rparr>"
  have nocool: "\<not> (last_claim data ?u \<noteq> 0 \<and> int now - int (last_claim data ?u) < CLAIM_COOLDOWN_MS)"
    using assms(5) by (auto simp: last_claim_def)
  have put: "obj_put (claims data) ?u \<lparr>lastClaimAt = now\<rparr> = (claims data)(?u \<mapsto> \<lparr>lastClaimAt = now\<rparr>)"
    using assms(6) by (rule obj_put_plain)
  have c: "claim d req now =
      (Reply 200 (OkUrl (link_url l)),
       if writable d1 then d1\<lparr>data_file := Some (JSON_stringify ?new)\<rparr> else d1)"
    using claim_found [OF assms(1-4), of now] nocool by (simp add: put)
  from assms(4) have "folders data \<noteq> []" by (auto simp: findLinkById_def)
  with assms(1) have sh: "shape ?new = AnObject" by (simp add: loadData_shape)
  have w: "writable d1 = writable d" using assms(1) by (rule loadData_writable)
  have s1: "current_store d1 = data" using assms(1) by (simp add: current_store_loaded)
  have s2: "current_store (d1\<lparr>data_file := Some (JSON_stringify ?new)\<rparr>) = ?new"
    by (simp add: current_store_def loadData_saved [OF sh])
  note snd = findLinkById_sound [OF assms(4)]
  show ?thesis
  proof (cases "writable d")
    case True
    with c w s2 snd show ?thesis by simp
  next
    case False
    with c w s1 snd show ?thesis by simp
  qed
qed

section \<open>Loading a file that holds no object (C9)\<close>

text \<open>
  C9 says that \<open>loadData\<close> returns a store on every state of the disk and recovers from a
  missing or corrupt file by writing and returning the empty store. That holds for a
  missing file, an unparsable one and \<^verbatim>\<open>null\<close> (\<open>loadData_cases\<close>), and no state of
  the disk makes \<open>loadData\<close> fail (\<open>loadData_total\<close>). It does not hold for a file that
  holds a JSON number, string or boolean: \<open>loadData\<close> returns that value as it is, with
  neither folders nor claims on it, and writes nothing, so the file stays as it is and
  every later load returns the primitive again.
\<close>

theorem loadData_primitive:
  "loadData primitive_disk =
     Inr (\<lparr>folders = [], claims = no_claims, shape = APrimitive\<rparr>, primitive_disk)
   \<and> shape (current_store primitive_disk) = APrimitive
   \<and> current_store primitive_disk \<noteq> init_store
   \<and> data_file (snd (get_links primitive_disk)) = Some JsonPrimitive"
proof -
  have l: "loadData primitive_disk =
     Inr (\<lparr>folders = [], claims = no_claims, shape = APrimitive\<rparr>, primitive_disk)"
    by (simp add: loadData_def load_try_cases primitive_disk_def no_claims_def)
  have g: "snd (get_links primitive_disk) = primitive_disk"
    by (simp add: get_links_def l)
  show ?thesis
    using l by (simp add: current_store_def g init_store_def) (simp add: primitive_disk_def)
qed

section \<open>Listing is a read (C7, C10)\<close>

text \<open>
  C7. Handling \<^verbatim>\<open>GET /links\<close> leaves the store as it was: the store read from the disk
  after the request equals the store read before it (claims, folders, folder ids and link
  ids included), and a disk that holds a document is not written at all.
\<close>

theorem get_links_reads_only:
  "current_store (snd (get_links d)) = current_store d \<and>
   (\<forall>fs cs. data_file d = Some (Document fs cs) \<longrightarrow> snd (get_links d) = d)"
proof -
  obtain s d' where l: "loadData d = Inr (s, d')" using loadData_total by blast
  then have g: "snd (get_links d) = d'" by (simp add: get_links_def)
  from l have "current_store d' = current_store d" by (simp add: current_store_loaded)
  moreover have "\<forall>fs cs. data_file d = Some (Document fs cs) \<longrightarrow> d' = d"
    using l loadData_document by blast
  ultimately show ?thesis using g by simp
qed

theorem get_links_reads_only_witness:
  "current_store (snd (get_links (example_disk 5))) = current_store (example_disk 5)
   \<and> snd (get_links (example_disk 5)) = example_disk 5"
  using get_links_reads_only [of "example_disk 5"] by (simp add: example_disk_def)

text \<open>
  C10. The body of the reply to \<^verbatim>\<open>GET /links\<close> is computed from the folders alone: it
  is the list of the folders' views (id, title, and id, name, url of each link), so two
  disks whose stores have the same folders get the same reply whatever their claims are,
  and neither a visitor id nor a claim time is part of it.
\<close>

theorem get_links_folders_only:
  "fst (get_links d) = Reply 200 (Links (map view_folder (folders (current_store d)))) \<and>
   (folders (current_store d1) = folders (current_store d2) \<longrightarrow>
      fst (get_links d1) = fst (get_links d2)) \<and>
   fst (get_links \<lparr>data_file = Some (Document fs cs1), writable = w1\<rparr>) =
     fst (get_links \<lparr>data_file = Some (Document fs cs2), writable = w2\<rparr>)"
proof -
  have r: "fst (get_links x) = Reply 200 (Links (map view_folder (folders (current_store x))))" for x
  proof -
    obtain s d' where l: "loadData x = Inr (s, d')" using loadData_total by blast
    then show ?thesis by (simp add: get_links_def current_store_def)
  qed
  have f: "folders (current_store \<lparr>data_file = Some (Document fs cs), writable = w\<rparr>) =
             (case fs of Some a \<Rightarrow> a | None \<Rightarrow> [])" for cs w
    by (simp add: current_store_def loadData_def load_try_cases)
  show ?thesis by (simp add: r f)
qed

theorem get_links_folders_only_witness:
  "fst (get_links (example_disk 5)) = fst (get_links (example_disk 1700000000000))"
proof -
  have h: "folders (current_store (example_disk 5)) =
           folders (current_store (example_disk 1700000000000))"
    by (simp add: current_store_def loadData_example)
  have "folders (current_store (example_disk 5)) =
          folders (current_store (example_disk 1700000000000)) \<longrightarrow>
        fst (get_links (example_disk 5)) = fst (get_links (example_disk 1700000000000))"
    using get_links_folders_only [of "example_disk 5" "example_disk 5" "example_disk 1700000000000"]
    by blast
  with h show ?thesis by blast
qed

section \<open>The claim cooldown (C1, C2, C8)\<close>

text \<open>
  C1, as amended. For a claim request whose id is present and resolves to a link, if the
  visitor has a claim record whose \<open>lastClaimAt\<close> is not 0 and less than seven days (in
  milliseconds) have passed since, the reply is 429 with
  \<open>retryAfter = ceil((COOLDOWN - elapsed) / 1000)\<close>, and the store is unchanged: the disk
  is as loading left it, it stands for the same store, and a disk that held a document
  is not written.
\<close>

theorem claim_denied:
  assumes "loadData d = Inr (data, d1)"
    and "body_id req = Some i" and "i \<noteq> []"
    and "findLinkById data i = Some (f, l)"
    and "claims data (divine_uid req) = Some r"
    and "lastClaimAt r \<noteq> 0"
    and "int now - int (lastClaimAt r) < CLAIM_COOLDOWN_MS"
  shows "claim d req now =
           (Reply 429 (FailRetry \<lceil>real_of_int (CLAIM_COOLDOWN_MS - (int now - int (lastClaimAt r))) / 1000\<rceil>), d1)
         \<and> current_store d1 = current_store d
         \<and> (\<forall>fs cs. data_file d = Some (Document fs cs) \<longrightarrow> d1 = d)"
proof -
  have "last_claim data (divine_uid req) = lastClaimAt r"
    using assms(5) by (simp add: last_claim_def)
  then have "claim d req now =
      (Reply 429 (FailRetry (ceil_div1000 (CLAIM_COOLDOWN_MS - (int now - int (lastClaimAt r))))), d1)"
    using claim_found [OF assms(1-4), of now] assms(6,7) by simp
  moreover have "current_store d1 = current_store d"
    using assms(1) by (simp add: current_store_loaded)
  moreover have "\<forall>fs cs. data_file d = Some (Document fs cs) \<longrightarrow> d1 = d"
    using assms(1) loadData_document by blast
  ultimately show ?thesis by (simp add: ceil_div1000_ceiling)
qed

text \<open>Where the claim as written fails: a record with \<open>lastClaimAt = 0\<close> is taken as no
  record, so the claim made 1000 ms later is granted and recorded.\<close>

theorem claim_denied_counterexample:
  "claims (current_store (example_disk 0)) ''V1'' = Some \<lparr>lastClaimAt = 0\<rparr>
   \<and> findLinkById (current_store (example_disk 0)) ''L1''
       = Some (\<lparr>folder_id = ''F1'', folder_title = ''Tools'',
             folder_links = Some [\<lparr>link_id = ''L1'', link_name = ''Site'', link_url = ''https://a.example/''\<rparr>]\<rparr>,
           \<lparr>link_id = ''L1'', link_name = ''Site'', link_url = ''https://a.example/''\<rparr>)
   \<and> int 1000 - int 0 < CLAIM_COOLDOWN_MS
   \<and> claim (example_disk 0) example_claim_req 1000 = (Reply 200 (OkUrl ''https://a.example/''), example_disk 1000)"
proof -
  have s: "current_store (example_disk 0) =
             \<lparr>folders = example_folders, claims = example_claims 0, shape = AnObject\<rparr>"
    by (simp add: current_store_def loadData_example)
  have b: "body_id example_claim_req = Some ''L1''" and n: "''L1'' \<noteq> []"
    and u: "divine_uid example_claim_req = ''V1''"
    by (simp_all add: example_claim_req_def)
  have p: "obj_put (example_claims 0) ''V1'' \<lparr>lastClaimAt = 1000\<rparr> = example_claims 1000"
    by (simp add: obj_put_def example_claims_def)
  have z: "last_claim \<lparr>folders = example_folders, claims = example_claims 0, shape = AnObject\<rparr> ''V1'' = 0"
    by (simp add: last_claim_def example_claims_def)
  have d: "(example_disk 0)\<lparr>data_file := Some (JSON_stringify
             \<lparr>folders = example_folders, claims = example_claims 1000, shape = AnObject\<rparr>)\<rparr>
           = example_disk 1000"
    by (simp add: example_disk_def JSON_stringify_def)
  have w: "writable (example_disk 0)" by (simp add: example_disk_def)
  have c: "claim (example_disk 0) example_claim_req 1000 =
             (Reply 200 (OkUrl ''https://a.example/''), example_disk 1000)"
    using claim_found [OF loadData_example b n find_example, of 0 1000]
    by (simp add: u p z d w)
  show ?thesis using c by (simp add: s find_example example_claims_def CLAIM_COOLDOWN_MS_def)
qed

theorem claim_denied_witness:
  "claim (example_disk 1700000000000) example_claim_req 1700000001000 =
     (Reply 429 (FailRetry 604799), example_disk 1700000000000)
   \<and> current_store (example_disk 1700000000000) =
       \<lparr>folders = example_folders, claims = example_claims 1700000000000, shape = AnObject\<rparr>"
proof -
  have b: "body_id example_claim_req = Some ''L1''" and n: "''L1'' \<noteq> []"
    by (simp_all add: example_claim_req_def)
  have c: "claims \<lparr>folders = example_folders, claims = example_claims 1700000000000, shape = AnObject\<rparr>
             (divine_uid example_claim_req) = Some \<lparr>lastClaimAt = 1700000000000\<rparr>"
    by (simp add: example_claim_req_def example_claims_def)
  have z: "lastClaimAt \<lparr>lastClaimAt = 1700000000000\<rparr> \<noteq> 0" by simp
  have e: "int 1700000001000 - int (lastClaimAt \<lparr>lastClaimAt = 1700000000000\<rparr>) < CLAIM_COOLDOWN_MS"
    by (simp add: CLAIM_COOLDOWN_MS_def)
  show ?thesis
    using claim_denied [OF loadData_example b n find_example c z e]
    by (simp add: CLAIM_COOLDOWN_MS_def current_store_def loadData_example)
qed

text \<open>
  C2 says that a granted claim sets \<open>claims[visitor] = {lastClaimAt: now}\<close> and persists
  it. For every visitor id but one the handler does so (\<open>claim_granted_stored\<close>). For a
  visitor whose cookie is \<^verbatim>\<open>__proto__\<close> the assignment sets the prototype of the claims
  object and adds no key: the claim is granted with the url of the requested link, the
  file written back has no record for the visitor, and the next claim, a millisecond
  later, is granted again. The same request of the visitor \<open>V1\<close> leaves a record.
\<close>

theorem claim_proto_not_recorded:
  "claim catalog_disk proto_claim_req 1700000000000 =
     (Reply 200 (OkUrl ''https://b.example/''), catalog_disk)
   \<and> claims (current_store catalog_disk) ''__proto__'' = None
   \<and> claim catalog_disk proto_claim_req 1700000000001 =
     (Reply 200 (OkUrl ''https://b.example/''), catalog_disk)
   \<and> claim catalog_disk \<lparr>body_id = Some ''L2'', divine_uid = ''V1''\<rparr> 1700000000000 =
     (Reply 200 (OkUrl ''https://b.example/''),
      \<lparr>data_file = Some (Document (Some example_catalog) (Some (example_claims 1700000000000))),
       writable = True\<rparr>)"
proof -
  let ?data = "\<lparr>folders = example_catalog, claims = no_claims, shape = AnObject\<rparr>"
  have l: "loadData catalog_disk = Inr (?data, catalog_disk)"
    by (simp add: loadData_def load_try_cases catalog_disk_def)
  have f: "findLinkById ?data ''L2'' =
      Some (\<lparr>folder_id = ''F2'', folder_title = ''Docs'',
              folder_links = Some [\<lparr>link_id = ''L2'', link_name = ''Guide'', link_url = ''https://b.example/''\<rparr>,
                                   \<lparr>link_id = ''L3'', link_name = ''Notes'', link_url = ''https://c.example/''\<rparr>]\<rparr>,
            \<lparr>link_id = ''L2'', link_name = ''Guide'', link_url = ''https://b.example/''\<rparr>)"
    by (simp add: findLinkById_def example_catalog_def links_or_empty_def)
  have n: "''L2'' \<noteq> []" by simp
  have z: "last_claim ?data k = 0" for k
    by (simp add: last_claim_def no_claims_def)
  have p: "obj_put no_claims ''__proto__'' r = no_claims" for r :: claim_record
    by (simp add: obj_put_def no_claims_def)
  have v: "obj_put no_claims ''V1'' \<lparr>lastClaimAt = t\<rparr> = example_claims t" for t
    by (simp add: obj_put_def no_claims_def example_claims_def)
  have w: "writable catalog_disk" by (simp add: catalog_disk_def)
  have same: "catalog_disk\<lparr>data_file := Some (JSON_stringify ?data)\<rparr> = catalog_disk"
    by (simp add: catalog_disk_def JSON_stringify_def)
  have other: "catalog_disk\<lparr>data_file := Some (JSON_stringify
                 \<lparr>folders = example_catalog, claims = example_claims t, shape = AnObject\<rparr>)\<rparr> =
               \<lparr>data_file = Some (Document (Some example_catalog) (Some (example_claims t))),
                writable = True\<rparr>" for t
    by (simp add: catalog_disk_def JSON_stringify_def)
  have bp: "body_id proto_claim_req = Some ''L2''"
    and up: "divine_uid proto_claim_req = ''__proto__''"
    by (simp_all add: proto_claim_req_def)
  have a: "claim catalog_disk proto_claim_req t =
     (Reply 200 (OkUrl ''https://b.example/''), catalog_disk)" for t
    using claim_found [OF l bp n f, of t] by (simp add: up z p w same)
  have b: "claims (current_store catalog_disk) ''__proto__'' = None"
    by (simp add: current_store_def l no_claims_def)
  have bv: "body_id \<lparr>body_id = Some ''L2'', divine_uid = ''V1''\<rparr> = Some ''L2''" by simp
  have c: "claim catalog_disk \<lparr>body_id = Some ''L2'', divine_uid = ''V1''\<rparr> 1700000000000 =
     (Reply 200 (OkUrl ''https://b.example/''),
      \<lparr>data_file = Some (Document (Some example_catalog) (Some (example_claims 1700000000000))),
       writable = True\<rparr>)"
    using claim_found [OF l bv n f, of 1700000000000] by (simp add: z v w other)
  from a [of 1700000000000] b a [of 1700000000001] c show ?thesis by simp
qed

text \<open>
  C8, as amended. For two successive denials of one visitor, the later one carries a
  \<open>retryAfter\<close> that is not larger, and strictly smaller once a full second has passed
  between them; every denial carries \<open>retryAfter \<ge> 1\<close>, so 0 is not reached before the
  seven days are over; a denial leaves the disk as it was.
\<close>

theorem retry_after_monotone:
  assumes "claim d req t1 = (Reply 429 (FailRetry r1), d1)"
    and "claim d1 req t2 = (Reply 429 (FailRetry r2), d2)"
    and "t1 \<le> t2"
  shows "r2 \<le> r1 \<and> (t1 + 1000 \<le> t2 \<longrightarrow> r2 < r1) \<and> 1 \<le> r2 \<and> d2 = d1"
proof -
  from claim_denied_cases [OF assms(1)] obtain data where
    l1: "loadData d = Inr (data, d1)"
    and e1: "int t1 - int (last_claim data (divine_uid req)) < CLAIM_COOLDOWN_MS"
    and r1: "r1 = ceil_div1000 (CLAIM_COOLDOWN_MS - (int t1 - int (last_claim data (divine_uid req))))"
    by blast
  from claim_denied_cases [OF assms(2)] obtain data' where
    l2: "loadData d1 = Inr (data', d2)"
    and e2: "int t2 - int (last_claim data' (divine_uid req)) < CLAIM_COOLDOWN_MS"
    and r2: "r2 = ceil_div1000 (CLAIM_COOLDOWN_MS - (int t2 - int (last_claim data' (divine_uid req))))"
    by blast
  from l1 have "loadData d1 = Inr (data, d1)" by (rule loadData_again)
  with l2 have same: "data' = data" "d2 = d1" by simp_all
  let ?L = "int (last_claim data (divine_uid req))"
  let ?x1 = "CLAIM_COOLDOWN_MS - (int t1 - ?L)"
  let ?x2 = "CLAIM_COOLDOWN_MS - (int t2 - ?L)"
  have le: "?x2 \<le> ?x1" using assms(3) by simp
  have a: "r2 \<le> r1" using le r1 r2 same by (simp add: ceil_div1000_mono)
  have b: "r2 < r1" if "t1 + 1000 \<le> t2"
  proof -
    have "?x2 + 1000 \<le> ?x1" using that by simp
    then have "ceil_div1000 (?x2 + 1000) \<le> ceil_div1000 ?x1" by (rule ceil_div1000_mono)
    then show ?thesis using r1 r2 same by (simp add: ceil_div1000_shift)
  qed
  have c: "1 \<le> r2" using e2 r2 same by (simp add: ceil_div1000_pos)
  show ?thesis using a b c same by simp
qed

theorem retry_after_monotone_witness:
  "claim (example_disk 1700000000000) example_claim_req 1700000001000 =
     (Reply 429 (FailRetry 604799), example_disk 1700000000000)
   \<and> claim (example_disk 1700000000000) example_claim_req 1700000003000 =
     (Reply 429 (FailRetry 604797), example_disk 1700000000000)
   \<and> (604797::int) < 604799"
proof -
  have c1: "claim (example_disk 1700000000000) example_claim_req 1700000001000 =
     (Reply 429 (FailRetry 604799), example_disk 1700000000000)"
    by (simp add: claim_def loadData_example find_example example_claim_req_def last_claim_def
        example_claims_def CLAIM_COOLDOWN_MS_def ceil_div1000_def)
  have c2: "claim (example_disk 1700000000000) example_claim_req 1700000003000 =
     (Reply 429 (FailRetry 604797), example_disk 1700000000000)"
    by (simp add: claim_def loadData_example find_example example_claim_req_def last_claim_def
        example_claims_def CLAIM_COOLDOWN_MS_def ceil_div1000_def)
  have t: "(1700000001000::nat) \<le> 1700000003000" by simp
  show ?thesis using retry_after_monotone [OF c1 c2 t] c1 c2 by simp
qed

text \<open>Where the claim as written fails: two denials one millisecond apart carry the same
  \<open>retryAfter\<close>, as the value is rounded up to whole seconds.\<close>

theorem retry_after_strict_counterexample:
  "(1700000000001::nat) < 1700000000002
   \<and> claim (example_disk 1700000000000) example_claim_req 1700000000001 =
     (Reply 429 (FailRetry 604800), example_disk 1700000000000)
   \<and> claim (example_disk 1700000000000) example_claim_req 1700000000002 =
     (Reply 429 (FailRetry 604800), example_disk 1700000000000)"
  by (simp add: claim_def loadData_example find_example example_claim_req_def last_claim_def
      example_claims_def CLAIM_COOLDOWN_MS_def ceil_div1000_def)

section \<open>Facts about the PIN gate\<close>

lemma proto_member_proto: "proto_member ''__proto__''"
  by (simp add: proto_member_def)

lemma pin_entry_cases:
  "pin_entry pa ip = Entry s \<Longrightarrow>
   pa ip = Some (Entry s) \<or> (pa ip = None \<and> \<not> proto_member ip \<and> s = \<lparr>count = 0, lockUntil = 0\<rparr>)"
  by (auto simp: pin_entry_def pin_get_def split: option.splits if_splits)

lemma isIpLocked_entry: "pin_entry pa ip = Entry s \<Longrightarrow> isIpLocked pa ip t \<longleftrightarrow> t < lockUntil s"
  by (auto simp: isIpLocked_def pin_entry_def pin_get_def split: option.splits if_splits)

lemma isIpLocked_builtin: "pin_entry pa ip = Builtin \<Longrightarrow> \<not> isIpLocked pa ip t"
  by (auto simp: isIpLocked_def pin_entry_def pin_get_def split: option.splits if_splits)

text \<open>A failure on a counted entry: one more, or the lock at the sixth.\<close>

lemma register_entry:
  assumes "pin_entry pa ip = Entry s"
  shows "registerPinFailure pa ip t' =
     pa(ip \<mapsto> Entry (if PIN_MAX_ATTEMPTS \<le> count s + 1
                        then \<lparr>count = 0, lockUntil = t' + PIN_LOCK_MS\<rparr>
                        else s\<lparr>count := count s + 1\<rparr>))"
proof -
  from pin_entry_cases [OF assms] have "ip \<noteq> ''__proto__'' \<or> pa ip \<noteq> None"
    using proto_member_proto by auto
  then have "obj_put pa ip v = pa(ip \<mapsto> v)" for v by (rule obj_put_plain)
  then show ?thesis using assms by (cases s) (simp add: registerPinFailure_def Let_def)
qed

text \<open>A failure on a built-in: nothing that the gate reads changes.\<close>

lemma register_builtin:
  assumes "pin_entry pa ip = Builtin"
  shows "pin_entry (registerPinFailure pa ip t') ip = Builtin"
  using assms
  by (auto simp: registerPinFailure_def obj_put_def pin_entry_def pin_get_def
      split: option.splits if_splits)

lemma pin_entry_upd: "pin_entry (pa(ip \<mapsto> v)) ip = v"
  by (simp add: pin_entry_def pin_get_def)


lemma verify_pin_wrong:
  assumes "P = [] \<or> body_pin req \<noteq> Some P" and "\<not> isIpLocked pa (ipKey req) t"
  shows "verify_pin P pa adm req t t' = (Reply 401 Fail, registerPinFailure pa (ipKey req) t', adm)"
  using assms by (cases "body_pin req") (auto simp: verify_pin_def truthy_def str_of_def Let_def)

lemma verify_pin_correct:
  assumes "body_pin req = Some P" and "P \<noteq> []" and "\<not> isIpLocked pa (ipKey req) t"
  shows "verify_pin P pa adm req t t' = (Reply 200 Ok, pa(ipKey req := None), True)"
  using assms by (simp add: verify_pin_def truthy_def str_of_def Let_def)


lemma verify_pins_wrong:
  assumes "\<forall>(req, t, t') \<in> set rs.
             ipKey req = ip \<and> (P = [] \<or> body_pin req \<noteq> Some P) \<and> \<not> isIpLocked pa ip t"
    and "pin_entry pa ip = Entry s"
    and "count s + length rs < PIN_MAX_ATTEMPTS"
  shows "pin_entry (fst (verify_pins P pa adm rs)) ip = Entry (s\<lparr>count := count s + length rs\<rparr>)
         \<and> snd (verify_pins P pa adm rs) = adm"
  using assms
proof (induction rs arbitrary: pa s)
  case Nil
  then show ?case by simp
next
  case (Cons a rs)
  obtain req t t' where a: "a = (req, t, t')" by (cases a)
  let ?s = "s\<lparr>count := Suc (count s)\<rparr>"
  let ?pa = "pa(ip \<mapsto> Entry ?s)"
  from Cons.prems(1) a have k: "ipKey req = ip" and w: "P = [] \<or> body_pin req \<noteq> Some P"
    and nl: "\<not> isIpLocked pa ip t" by auto
  have r: "registerPinFailure pa ip t' = ?pa"
    using Cons.prems(3) by (simp add: register_entry [OF Cons.prems(2)])
  have step: "verify_pin P pa adm req t t' = (Reply 401 Fail, ?pa, adm)"
    using verify_pin_wrong [of P req pa t adm t'] k w nl r by simp
  have e: "pin_entry ?pa ip = Entry ?s" by (rule pin_entry_upd)
  have lk: "isIpLocked ?pa ip u \<longleftrightarrow> isIpLocked pa ip u" for u
    using isIpLocked_entry [OF e, of u] isIpLocked_entry [OF Cons.prems(2), of u] by simp
  have p1: "\<forall>(req, t, t') \<in> set rs.
              ipKey req = ip \<and> (P = [] \<or> body_pin req \<noteq> Some P) \<and> \<not> isIpLocked ?pa ip t"
    using Cons.prems(1) by (simp add: lk)
  have p2: "count ?s + length rs < PIN_MAX_ATTEMPTS"
    using Cons.prems(3) by simp
  have ih: "pin_entry (fst (verify_pins P ?pa adm rs)) ip = Entry (?s\<lparr>count := count ?s + length rs\<rparr>)
         \<and> snd (verify_pins P ?pa adm rs) = adm"
    by (rule Cons.IH [OF p1 e p2])
  have eq: "?s\<lparr>count := count ?s + length rs\<rparr> = s\<lparr>count := count s + length (a # rs)\<rparr>"
    by simp
  have run: "verify_pins P pa adm (a # rs) = verify_pins P ?pa adm rs"
    by (simp only: a verify_pins.simps step prod.case)
  show ?case unfolding run eq [symmetric] by (rule ih)
qed



lemma ipKey_forwarded: "k \<noteq> [] \<Longrightarrow> ipKey (forwarded_pin_req k p) = k"
  by (simp add: ipKey_def forwarded_pin_req_def truthy_def str_of_def)

lemma ipKey_body_pin: "ipKey (req\<lparr>body_pin := p\<rparr>) = ipKey req"
  by (simp add: ipKey_def)


text \<open>After fewer than six wrong PINs on a counted entry, the configured PIN is answered
  200, sets the flag of the session and deletes the entry.\<close>

lemma correct_pin_clears:
  assumes "length rs < 6"
    and "\<forall>(req, t, t') \<in> set rs.
           ipKey req = ip \<and> (P = [] \<or> body_pin req \<noteq> Some P) \<and> \<not> isIpLocked pa ip t"
    and "pin_entry pa ip = Entry s" and "count s = 0"
    and "ipKey rq = ip" and "body_pin rq = Some P" and "P \<noteq> []" and "\<not> isIpLocked pa ip u"
  shows "verify_pin P (fst (verify_pins P pa adm rs)) (snd (verify_pins P pa adm rs)) rq u u' =
          (Reply 200 Ok, (fst (verify_pins P pa adm rs))(ip := None), True)"
proof -
  let ?pa = "fst (verify_pins P pa adm rs)"
  have len: "count s + length rs < PIN_MAX_ATTEMPTS"
    using assms(1,4) by (simp add: PIN_MAX_ATTEMPTS_def)
  from verify_pins_wrong [OF assms(2,3) len, of adm]
  have e: "pin_entry ?pa ip = Entry (s\<lparr>count := count s + length rs\<rparr>)" by simp
  have nl: "\<not> isIpLocked ?pa (ipKey rq) u"
    using assms(5,8) by (simp add: isIpLocked_entry [OF e] isIpLocked_entry [OF assms(3)])
  show ?thesis using verify_pin_correct [OF assms(6,7) nl] assms(5) by simp
qed

section \<open>The lockout of the PIN gate (C3, C6)\<close>

text \<open>
  C3 says that for every IP six wrong PINs in a row set the lock, and that a locked IP is
  answered 429 even with the right PIN. For a key whose entry is a counter that is what
  the gate does (\<open>six_wrong_lock\<close>, \<open>locked_rejects\<close>, \<open>correct_pin_clears\<close>). The key
  is the \<^verbatim>\<open>X-Forwarded-For\<close> header of the client when the request has no address, and
  for a key that names a member of \<^verbatim>\<open>Object.prototype\<close> the gate never locks: after six
  wrong PINs under the key \<^verbatim>\<open>constructor\<close> the table holds the built-in, no lock runs,
  and the seventh attempt, with the right PIN, is answered 200 and makes the session an
  admin session.
\<close>

theorem pin_lockout_prototype_key:
  "fst (verify_pins ''2468'' no_attempts False forwarded_attempts) ''constructor'' = Some Builtin
   \<and> snd (verify_pins ''2468'' no_attempts False forwarded_attempts) = False
   \<and> \<not> isIpLocked (fst (verify_pins ''2468'' no_attempts False forwarded_attempts))
         ''constructor'' 6002
   \<and> verify_pin ''2468'' (fst (verify_pins ''2468'' no_attempts False forwarded_attempts)) False
        (forwarded_pin_req ''constructor'' ''2468'') 6002 6003 =
       (Reply 200 Ok, no_attempts, True)"
proof -
  have k: "ipKey (forwarded_pin_req ''constructor'' p) = ''constructor''" for p
    by (simp add: ipKey_forwarded)
  have m: "proto_member ''constructor''" by (simp add: proto_member_def)
  let ?pa = "no_attempts(''constructor'' \<mapsto> Builtin)"
  have e0: "pin_entry no_attempts ''constructor'' = Builtin"
    using m by (simp add: pin_entry_def pin_get_def no_attempts_def)
  have e1: "pin_entry ?pa ''constructor'' = Builtin" by (rule pin_entry_upd)
  have r0: "registerPinFailure no_attempts ''constructor'' t' = ?pa" for t'
    by (simp add: registerPinFailure_def e0 obj_put_def)
  have r1: "registerPinFailure ?pa ''constructor'' t' = ?pa" for t'
    by (simp add: registerPinFailure_def e1 obj_put_def)
  have w: "body_pin (forwarded_pin_req ''constructor'' p) = Some p" for p
    by (simp add: forwarded_pin_req_def)
  have s0: "verify_pin ''2468'' no_attempts False (forwarded_pin_req ''constructor'' p) t t' =
              (Reply 401 Fail, ?pa, False)" if "p \<noteq> ''2468''" for p t t'
    using verify_pin_wrong [of "''2468''" "forwarded_pin_req ''constructor'' p" no_attempts t False t']
      that isIpLocked_builtin [OF e0] by (simp add: k w r0)
  have s1: "verify_pin ''2468'' ?pa False (forwarded_pin_req ''constructor'' p) t t' =
              (Reply 401 Fail, ?pa, False)" if "p \<noteq> ''2468''" for p t t'
    using verify_pin_wrong [of "''2468''" "forwarded_pin_req ''constructor'' p" ?pa t False t']
      that isIpLocked_builtin [OF e1] by (simp add: k w r1)
  have run: "verify_pins ''2468'' no_attempts False forwarded_attempts = (?pa, False)"
    by (simp add: forwarded_attempts_def s0 s1)
  have nl: "\<not> isIpLocked ?pa ''constructor'' 6002" by (rule isIpLocked_builtin [OF e1])
  have nl': "\<not> isIpLocked ?pa (ipKey (forwarded_pin_req ''constructor'' ''2468'')) 6002"
    using nl by (simp add: k)
  have c: "verify_pin ''2468'' ?pa False (forwarded_pin_req ''constructor'' ''2468'') 6002 6003 =
             (Reply 200 Ok, no_attempts, True)"
    using verify_pin_correct [OF w _ nl', of False 6003]
    by (simp add: k no_attempts_def)
  show ?thesis using nl c by (simp add: run)
qed

text \<open>The outcome of that run for the client: the session is an admin session.\<close>

theorem pin_lockout_prototype_key_witness:
  "fst (verify_pin ''2468'' (fst (verify_pins ''2468'' no_attempts False forwarded_attempts)) False
        (forwarded_pin_req ''constructor'' ''2468'') 6002 6003) = Reply 200 Ok
   \<and> snd (snd (verify_pin ''2468'' (fst (verify_pins ''2468'' no_attempts False forwarded_attempts))
        False (forwarded_pin_req ''constructor'' ''2468'') 6002 6003)) = True"
  using pin_lockout_prototype_key by simp



section \<open>The URL gate (C4)\<close>

text \<open>
  C4. \<open>ensureUrlSafe\<close> returns nothing exactly when the platform's parser rejects the
  string as an absolute URL or parses it with a scheme other than \<open>http\<close> or \<open>https\<close>;
  otherwise it returns the serialised form of the parsed URL. So \<^verbatim>\<open>javascript:alert(1)\<close>,
  parsed with the scheme \<open>javascript\<close>, is rejected, and \<^verbatim>\<open>https://example.com/a?x=1\<close>,
  parsed with the scheme \<open>https\<close>, is returned in the parser's serialised form.
\<close>

theorem ensureUrlSafe_gate:
  "(ensureUrlSafe parse raw = None \<longleftrightarrow>
      parse raw = None
      \<or> (\<exists>u. parse raw = Some u \<and> protocol u \<noteq> ''http:'' \<and> protocol u \<noteq> ''https:''))
   \<and> (\<forall>u. parse raw = Some u \<and> (protocol u = ''http:'' \<or> protocol u = ''https:'')
          \<longrightarrow> ensureUrlSafe parse raw = Some (href u))
   \<and> (\<forall>u. parse ''javascript:alert(1)'' = Some u \<and> protocol u = ''javascript:''
          \<longrightarrow> ensureUrlSafe parse ''javascript:alert(1)'' = None)
   \<and> (\<forall>u. parse ''https://example.com/a?x=1'' = Some u \<and> protocol u = ''https:''
          \<longrightarrow> ensureUrlSafe parse ''https://example.com/a?x=1'' = Some (href u))"
proof -
  have rejected: "ensureUrlSafe parse r = None" if "parse r = None" for r
    using that by (simp add: ensureUrlSafe_def)
  have other_scheme: "ensureUrlSafe parse r = None"
    if "parse r = Some u" and "protocol u \<noteq> ''http:''" and "protocol u \<noteq> ''https:''" for r u
    using that by (simp add: ensureUrlSafe_def)
  have accepted: "ensureUrlSafe parse r = Some (href u)"
    if "parse r = Some u" and "protocol u = ''http:'' \<or> protocol u = ''https:''" for r u
    using that by (auto simp: ensureUrlSafe_def)
  have none_iff: "ensureUrlSafe parse raw = None \<longleftrightarrow>
      parse raw = None
      \<or> (\<exists>u. parse raw = Some u \<and> protocol u \<noteq> ''http:'' \<and> protocol u \<noteq> ''https:'')"
  proof (cases "parse raw")
    case None
    then show ?thesis by (simp add: rejected)
  next
    case (Some u)
    show ?thesis
    proof (cases "protocol u = ''http:'' \<or> protocol u = ''https:''")
      case True
      with Some accepted [OF Some True] show ?thesis by auto
    next
      case False
      with Some other_scheme [of raw u] show ?thesis by auto
    qed
  qed
  have js: "ensureUrlSafe parse ''javascript:alert(1)'' = None"
    if "parse ''javascript:alert(1)'' = Some u" and "protocol u = ''javascript:''" for u
    using that by (simp add: other_scheme)
  have https: "ensureUrlSafe parse ''https://example.com/a?x=1'' = Some (href u)"
    if "parse ''https://example.com/a?x=1'' = Some u" and "protocol u = ''https:''" for u
    using that by (simp add: accepted)
  show ?thesis using none_iff accepted js https by blast
qed

theorem ensureUrlSafe_gate_witness:
  "ensureUrlSafe example_parse ''javascript:alert(1)'' = None
   \<and> ensureUrlSafe example_parse ''https://example.com/a?x=1'' = Some ''https://example.com/a?x=1''
   \<and> ensureUrlSafe example_parse ''no url'' = None"
proof -
  have j: "example_parse ''javascript:alert(1)'' = Some \<lparr>protocol = ''javascript:'', href = ''javascript:alert(1)''\<rparr>"
    by (simp add: example_parse_def)
  have h: "example_parse ''https://example.com/a?x=1'' = Some \<lparr>protocol = ''https:'', href = ''https://example.com/a?x=1''\<rparr>"
    by (simp add: example_parse_def)
  have n: "example_parse ''no url'' = None"
    by (simp add: example_parse_def)
  show ?thesis
    using ensureUrlSafe_gate [of example_parse "''no url''"] j h n by simp
qed

section \<open>Adding a link to an unknown folder (C5)\<close>

text \<open>The stripped string starts with no white space.\<close>

lemma strip_start_done: "space_at_start ws (strip_start ws s) = 0"
  by (induction ws s rule: strip_start.induct) simp

lemma strip_start_id: "space_at_start ws s = 0 \<Longrightarrow> strip_start ws s = s"
  by simp


lemma trim_https: "trim ''https://example.com/a?x=1'' = ''https://example.com/a?x=1''"
  by (simp add: trim_def space_at_start_def white_space_def)






end
